theory Spec2Isabelle
  imports Main
begin

section \<open>The call page of the medical voice agent\<close>

text \<open>
  A model of the page component \<^verbatim>\<open>MedicalVoiceAgent\<close>
  (\<^verbatim>\<open>dashboard/medical-agent/[sessionId]/page.tsx\<close>): its React state, the handlers it
  registers on the voice channel, and the two button handlers \<^verbatim>\<open>StartCall\<close> and
  \<^verbatim>\<open>endCall\<close>. State setters are record updates; everything the page does to the outside
  (channel objects and their listeners, notifications, report requests, navigation, uncaught
  exceptions) is logged in the same record. Console output is not modelled.
\<close>

subsection \<open>Values delivered by the channel\<close>

text \<open>
  The channel hands the handlers values of type \<^verbatim>\<open>unknown\<close>. Numbers are kept as integers:
  the handlers look only at the type tag and the truthiness of a value.
\<close>

datatype jsval =
    JUndefined
  | JNull
  | JBool bool
  | JNum int
  | JStr string
  | JObj "(string \<times> jsval) list"
  | JArr "jsval list"

datatype error = TypeError | RequestFailed

fun typeof :: "jsval \<Rightarrow> string" where
  "typeof JUndefined = ''undefined''"
| "typeof JNull = ''object''"
| "typeof (JBool b) = ''boolean''"
| "typeof (JNum n) = ''number''"
| "typeof (JStr s) = ''string''"
| "typeof (JObj ps) = ''object''"
| "typeof (JArr vs) = ''object''"

fun truthy :: "jsval \<Rightarrow> bool" where
  "truthy JUndefined = False"
| "truthy JNull = False"
| "truthy (JBool b) = b"
| "truthy (JNum n) = (n \<noteq> 0)"
| "truthy (JStr s) = (s \<noteq> [])"
| "truthy (JObj ps) = True"
| "truthy (JArr vs) = True"

text \<open>
  \<^verbatim>\<open>v.k\<close>: a TypeError on \<^verbatim>\<open>null\<close> and \<^verbatim>\<open>undefined\<close>, the property of an object,
  \<^verbatim>\<open>undefined\<close> on anything else (the handlers read none of the built-in properties of
  strings and arrays).
\<close>

fun getProp :: "jsval \<Rightarrow> string \<Rightarrow> error + jsval" where
  "getProp JUndefined k = Inl TypeError"
| "getProp JNull k = Inl TypeError"
| "getProp (JObj ps) k = Inr (case map_of ps k of None \<Rightarrow> JUndefined | Some v \<Rightarrow> v)"
| "getProp (JBool b) k = Inr JUndefined"
| "getProp (JNum n) k = Inr JUndefined"
| "getProp (JStr s) k = Inr JUndefined"
| "getProp (JArr vs) k = Inr JUndefined"

text \<open>\<^verbatim>\<open>v?.k\<close>: \<^verbatim>\<open>undefined\<close> when \<^verbatim>\<open>v\<close> is nullish.\<close>

fun optProp :: "jsval \<Rightarrow> string \<Rightarrow> error + jsval" where
  "optProp JUndefined k = Inr JUndefined"
| "optProp JNull k = Inr JUndefined"
| "optProp v k = getProp v k"

text \<open>Sequencing of evaluation steps that may throw.\<close>

definition bindE :: "error + 'a \<Rightarrow> ('a \<Rightarrow> error + 'b) \<Rightarrow> error + 'b" where
  "bindE m f = (case m of Inl e \<Rightarrow> Inl e | Inr v \<Rightarrow> f v)"

text \<open>\<^verbatim>\<open>a || b\<close>: \<^verbatim>\<open>b\<close> is evaluated only when \<^verbatim>\<open>a\<close> is falsy.\<close>

definition orElse :: "error + jsval \<Rightarrow> error + jsval \<Rightarrow> error + jsval" where
  "orElse a b = bindE a (\<lambda>v. if truthy v then Inr v else b)"

subsection \<open>The page's data\<close>

text \<open>
  Modelled from the spec: the type \<^verbatim>\<open>doctorAgent\<close> is declared in
  \<^verbatim>\<open>_components/DoctorAgentCard\<close>, which is not among the sources; the persona is
  a voice id, a behaviour prompt and display metadata, and these are the fields the page reads.
\<close>

record doctorAgent =
  voiceId :: "string option"
  agentPrompt :: "string option"
  image :: string
  specialist :: "string option"

record SessionDetail =
  sd_id :: int
  sd_notes :: string
  sessionId :: string
  report :: jsval
  selectedDoctor :: "doctorAgent option"
  createdOn :: string

record Message =
  msg_id :: string
  msg_role :: string
  msg_text :: string

text \<open>The body of the POST to \<^verbatim>\<open>/api/medical-report\<close>.\<close>

record reportRequest =
  req_messages :: "Message list"
  req_sessionDetail :: "SessionDetail option"
  req_sessionId :: string

datatype toast = ToastError jsval | ToastSuccess string

text \<open>The inline assistant configuration \<^verbatim>\<open>VapiAgentConfig\<close>.\<close>

record agentConfig =
  cfg_name :: string
  firstMessage :: string
  transcriberProvider :: string
  transcriberLanguage :: string
  voiceProvider :: string
  cfg_voiceId :: string
  modelProvider :: string
  modelName :: string
  systemContent :: "string option"

datatype startArg = AssistantId string | InlineConfig agentConfig

text \<open>
  The six handlers one run of \<^verbatim>\<open>StartCall\<close> creates. A handler is a closure: its identity is
  the run that created it (numbered like the channel object of that run) and its kind.
\<close>

datatype hkind = HcallStart | HcallEnd | Hmessage | HspeechStart | HspeechEnd | Herror

type_synonym handler = "nat \<times> hkind"

text \<open>
  A channel object (\<^verbatim>\<open>new Vapi(apiKey)\<close>), an event emitter: the listeners registered
  on it, in order of registration, the arguments of the calls of \<^verbatim>\<open>start\<close> and the number
  of calls of \<^verbatim>\<open>stop\<close>.
\<close>

record vapi =
  vapi_key :: string
  listeners :: "(string \<times> handler) list"
  starts :: "startArg list"
  stops :: nat

text \<open>
  The page: the component's state (\<^verbatim>\<open>useState\<close>, \<^verbatim>\<open>useRef\<close>), then the outside.
  \<^verbatim>\<open>vapiInstance\<close> and \<^verbatim>\<open>vapiHandlersRef\<close> hold references: the index of a channel object
  in \<^verbatim>\<open>channels\<close>, the number of a handler set. \<^verbatim>\<open>pending\<close> lists the runs of \<^verbatim>\<open>endCall\<close>
  that wait for their report request, each with the \<^verbatim>\<open>vapiInstance\<close> its closure captured.
\<close>

record page =
  sessionDetail :: "SessionDetail option"
  callStarted :: bool
  vapiInstance :: "nat option"
  currentRole :: "string option"
  liveTranscript :: string
  messages :: "Message list"
  loading :: bool
  vapiHandlersRef :: "nat option"
  channels :: "vapi list"
  toasts :: "toast list"
  posts :: "reportRequest list"
  redirects :: "string list"
  uuidCount :: nat
  pending :: "nat option list"
  uncaught :: "error list"

text \<open>
  What the page cannot choose: the two environment variables, the route parameter, and the
  values \<^verbatim>\<open>crypto.randomUUID()\<close> returns, in the order of the calls.
\<close>

record env =
  apiKey :: "string option"
  assistantId :: "string option"
  routeSessionId :: string
  randomUUID :: "nat \<Rightarrow> string"

definition initialPage :: page where
  "initialPage = \<lparr> sessionDetail = None, callStarted = False, vapiInstance = None,
     currentRole = None, liveTranscript = [], messages = [], loading = False,
     vapiHandlersRef = None, channels = [], toasts = [], posts = [], redirects = [],
     uuidCount = 0, pending = [], uncaught = [] \<rparr>"

subsection \<open>The event emitter\<close>

text \<open>
  \<^verbatim>\<open>on\<close> appends a listener; \<^verbatim>\<open>off\<close> removes the most recently added registration of the
  same function for the same event, if there is one.
\<close>

definition on :: "string \<Rightarrow> handler \<Rightarrow> vapi \<Rightarrow> vapi" where
  "on ev h c = c\<lparr>listeners := listeners c @ [(ev, h)]\<rparr>"

definition off :: "string \<Rightarrow> handler \<Rightarrow> vapi \<Rightarrow> vapi" where
  "off ev h c = c\<lparr>listeners := rev (remove1 (ev, h) (rev (listeners c)))\<rparr>"

definition onChannel :: "nat \<Rightarrow> (vapi \<Rightarrow> vapi) \<Rightarrow> page \<Rightarrow> page" where
  "onChannel i f s =
     (if i < length (channels s) then s\<lparr>channels := (channels s)[i := f (channels s ! i)]\<rparr>
      else s)"

definition eventNames :: "(string \<times> hkind) list" where
  "eventNames = [(''call-start'', HcallStart), (''call-end'', HcallEnd), (''message'', Hmessage),
     (''speech-start'', HspeechStart), (''speech-end'', HspeechEnd), (''error'', Herror)]"

subsection \<open>The handlers\<close>

definition resetCallState :: "page \<Rightarrow> page" where
  "resetCallState s = s\<lparr>callStarted := False, vapiInstance := None, currentRole := None,
     liveTranscript := [], loading := False\<rparr>"

definition handleCallStart :: "page \<Rightarrow> page" where
  "handleCallStart s = s\<lparr>loading := False, callStarted := True\<rparr>"

definition handleCallEnd :: "page \<Rightarrow> page" where
  "handleCallEnd s = (resetCallState s)\<lparr>vapiHandlersRef := None\<rparr>"

text \<open>The guard of \<^verbatim>\<open>handleMessage\<close>, a chain of \<^verbatim>\<open>&&\<close>.\<close>

definition isTranscript :: "jsval \<Rightarrow> error + bool" where
  "isTranscript msg =
     bindE (optProp msg ''type'') (\<lambda>ty.
       if ty \<noteq> JStr ''transcript'' then Inr False
       else bindE (getProp msg ''role'') (\<lambda>r.
         if typeof r \<noteq> ''string'' then Inr False
         else bindE (getProp msg ''transcriptType'') (\<lambda>tt.
           if typeof tt \<noteq> ''string'' then Inr False
           else bindE (getProp msg ''transcript'') (\<lambda>tr.
             Inr (typeof tr = ''string'')))))"

definition handleMessage :: "env \<Rightarrow> jsval \<Rightarrow> page \<Rightarrow> error + page" where
  "handleMessage e message s =
     bindE (isTranscript message) (\<lambda>ok.
       if \<not> ok then Inr s
       else bindE (getProp message ''role'') (\<lambda>r.
            bindE (getProp message ''transcriptType'') (\<lambda>tt.
            bindE (getProp message ''transcript'') (\<lambda>tr.
              case (r, tr) of
                (JStr role, JStr transcript) \<Rightarrow>
                  if tt = JStr ''partial'' then
                    Inr (s\<lparr>liveTranscript := transcript, currentRole := Some role\<rparr>)
                  else if tt = JStr ''final'' then
                    Inr (s\<lparr>messages := messages s @
                            [\<lparr>msg_id = randomUUID e (uuidCount s), msg_role = role,
                              msg_text = transcript\<rparr>],
                          uuidCount := Suc (uuidCount s),
                          liveTranscript := [], currentRole := None\<rparr>)
                  else Inr s
              | _ \<Rightarrow> Inr s))))"

definition handleSpeechStart :: "page \<Rightarrow> page" where
  "handleSpeechStart s = s\<lparr>currentRole := Some ''assistant''\<rparr>"

definition handleSpeechEnd :: "page \<Rightarrow> page" where
  "handleSpeechEnd s = s\<lparr>currentRole := Some ''user''\<rparr>"

text \<open>
  \<^verbatim>\<open>nested\<close> and \<^verbatim>\<open>nestedInner\<close> of \<^verbatim>\<open>handleError\<close>:
  \<^verbatim>\<open>(x?.error && typeof x.error === 'object') ? x.error : undefined\<close>.
\<close>

definition nestedOf :: "jsval \<Rightarrow> error + jsval" where
  "nestedOf x =
     bindE (optProp x ''error'') (\<lambda>a.
       if \<not> truthy a then Inr JUndefined
       else bindE (getProp x ''error'') (\<lambda>b.
         if typeof b = ''object'' then getProp x ''error'' else Inr JUndefined))"

text \<open>One disjunct of the message: \<^verbatim>\<open>typeof x?.f === 'string' && x.f\<close>.\<close>

definition strField :: "jsval \<Rightarrow> string \<Rightarrow> error + jsval" where
  "strField x f =
     bindE (optProp x f) (\<lambda>a.
       if typeof a = ''string'' then getProp x f else Inr (JBool False))"

definition fallbackMessage :: string where
  "fallbackMessage = ''Call ended unexpectedly.''"

definition errorMessage :: "jsval \<Rightarrow> error + jsval" where
  "errorMessage err =
     bindE (nestedOf err) (\<lambda>nested.
     bindE (nestedOf nested) (\<lambda>nestedInner.
       orElse (strField err ''errorMsg'')
      (orElse (strField nested ''errorMsg'')
      (orElse (strField nested ''message'')
      (orElse (strField nestedInner ''message'')
      (orElse (strField err ''message'')
      (Inr (if typeof err = ''string'' then err else JStr fallbackMessage))))))))"

definition handleError :: "jsval \<Rightarrow> page \<Rightarrow> error + page" where
  "handleError err s =
     bindE (errorMessage err) (\<lambda>msg.
       Inr ((resetCallState s)\<lparr>vapiHandlersRef := None, toasts := toasts s @ [ToastError msg]\<rparr>))"

subsection \<open>Starting a call\<close>

definition apostrophe :: string where
  "apostrophe = [CHR 0xE2, CHR 0x80, CHR 0x99]"

definition VapiAgentConfig :: "SessionDetail \<Rightarrow> agentConfig" where
  "VapiAgentConfig d = \<lparr>
     cfg_name = ''AI Medical Doctor Voice Agent'',
     firstMessage = ''Hi there! I'' @ apostrophe @ ''m your AI Medical Assistant. I'' @ apostrophe @
       ''m here to help you with any health questions or concerns you might have today. '' @
       ''How are you feeling?'',
     transcriberProvider = ''assembly-ai'',
     transcriberLanguage = ''en'',
     voiceProvider = ''playht'',
     cfg_voiceId = (case selectedDoctor d of None \<Rightarrow> ''will''
                    | Some doc \<Rightarrow> (case voiceId doc of None \<Rightarrow> ''will'' | Some v \<Rightarrow> v)),
     modelProvider = ''openai'',
     modelName = ''gpt-4'',
     systemContent = (case selectedDoctor d of None \<Rightarrow> None | Some doc \<Rightarrow> agentPrompt doc) \<rparr>"

definition missingKeyMessage :: jsval where
  "missingKeyMessage = JStr ''Missing NEXT_PUBLIC_VAPI_API_KEY''"

definition newVapi :: "string \<Rightarrow> vapi" where
  "newVapi k = \<lparr> vapi_key = k, listeners = [], starts = [], stops = 0 \<rparr>"

text \<open>
  An environment variable is a string or undefined, and \<^verbatim>\<open>!v\<close> holds of the undefined and
  of the empty one: \<^verbatim>\<open>present\<close> gives the value of a truthy variable.
\<close>

fun present :: "string option \<Rightarrow> string option" where
  "present None = None"
| "present (Some k) = (if k = [] then None else Some k)"

text \<open>
  \<^verbatim>\<open>StartCall\<close>. The channel object it creates is number \<^verbatim>\<open>length (channels s)\<close>, and so is
  the handler set. The promise \<^verbatim>\<open>start\<close> returns is not awaited.
\<close>

definition StartCall :: "env \<Rightarrow> page \<Rightarrow> page" where
  "StartCall e s =
     (case sessionDetail s of
        None \<Rightarrow> s
      | Some d \<Rightarrow>
          let s1 = s\<lparr>loading := True\<rparr> in
          (case present (apiKey e) of
             None \<Rightarrow> s1\<lparr>loading := False, toasts := toasts s1 @ [ToastError missingKeyMessage]\<rparr>
           | Some k \<Rightarrow>
               let i = length (channels s1);
                   s2 = s1\<lparr>vapiInstance := Some i\<rparr>;
                   s3 = s2\<lparr>vapiHandlersRef := Some i\<rparr>;
                   vapi = foldl (\<lambda>c (ev, h). on ev (i, h) c) (newVapi k) eventNames;
                   arg = (case present (assistantId e) of
                            Some a \<Rightarrow> AssistantId a
                          | None \<Rightarrow> InlineConfig (VapiAgentConfig d))
               in s3\<lparr>channels := channels s3 @ [vapi\<lparr>starts := starts vapi @ [arg]\<rparr>]\<rparr>))"

subsection \<open>Ending a call\<close>

definition reportBody :: "env \<Rightarrow> page \<Rightarrow> reportRequest" where
  "reportBody e s = \<lparr> req_messages = messages s, req_sessionDetail = sessionDetail s,
     req_sessionId = routeSessionId e \<rparr>"

text \<open>\<^verbatim>\<open>GenerateReport\<close> up to its \<^verbatim>\<open>await\<close>: the request is sent.\<close>

definition GenerateReport :: "env \<Rightarrow> page \<Rightarrow> page" where
  "GenerateReport e s = s\<lparr>loading := True, posts := posts s @ [reportBody e s]\<rparr>"

text \<open>
  \<^verbatim>\<open>endCall\<close> up to the \<^verbatim>\<open>await\<close>: it waits for the report, holding the \<^verbatim>\<open>vapiInstance\<close>
  of the render it was created in.
\<close>

definition endCall :: "env \<Rightarrow> page \<Rightarrow> page" where
  "endCall e s = (GenerateReport e s)\<lparr>pending := pending s @ [vapiInstance s]\<rparr>"

definition offAll :: "nat \<Rightarrow> vapi \<Rightarrow> vapi" where
  "offAll h c = foldl (\<lambda>c (ev, k). off ev (h, k) c) c eventNames"

text \<open>
  The rest of \<^verbatim>\<open>endCall\<close> once request \<^verbatim>\<open>n\<close> of the pending ones is answered:
  \<^verbatim>\<open>GenerateReport\<close> clears the loading flag and returns; then the channel held by the
  closure is stopped (an exception of \<^verbatim>\<open>stop\<close> is caught and logged), the handlers the ref
  holds now are removed from it, the state is reset, and the page is left.
\<close>

definition endCall_fulfilled :: "nat \<Rightarrow> page \<Rightarrow> page" where
  "endCall_fulfilled n s =
     (if n < length (pending s) then
        let s1 = s\<lparr>loading := False, pending := take n (pending s) @ drop (Suc n) (pending s)\<rparr>
        in (case pending s ! n of
              None \<Rightarrow> s1
            | Some i \<Rightarrow>
                let s2 = onChannel i (\<lambda>c. c\<lparr>stops := Suc (stops c)\<rparr>) s1;
                    s3 = (case vapiHandlersRef s2 of None \<Rightarrow> s2
                          | Some h \<Rightarrow> onChannel i (offAll h) s2)
                in (resetCallState s3)\<lparr>vapiHandlersRef := None,
                      toasts := toasts s3 @ [ToastSuccess ''Your report is generated!''],
                      redirects := redirects s3 @ [''/dashboard'']\<rparr>)
      else s)"

text \<open>
  The request is rejected: \<^verbatim>\<open>axios.post\<close> throws inside \<^verbatim>\<open>GenerateReport\<close>, nothing catches
  it, and \<^verbatim>\<open>endCall\<close> ends there with a rejected promise.
\<close>

definition endCall_rejected :: "nat \<Rightarrow> page \<Rightarrow> page" where
  "endCall_rejected n s =
     (if n < length (pending s) then
        s\<lparr>pending := take n (pending s) @ drop (Suc n) (pending s),
          uncaught := uncaught s @ [RequestFailed]\<rparr>
      else s)"

subsection \<open>Events of the channel, and runs of the page\<close>

definition runHandler :: "env \<Rightarrow> handler \<Rightarrow> jsval \<Rightarrow> page \<Rightarrow> error + page" where
  "runHandler e h payload s =
     (case snd h of
        HcallStart \<Rightarrow> Inr (handleCallStart s)
      | HcallEnd \<Rightarrow> Inr (handleCallEnd s)
      | Hmessage \<Rightarrow> handleMessage e payload s
      | HspeechStart \<Rightarrow> Inr (handleSpeechStart s)
      | HspeechEnd \<Rightarrow> Inr (handleSpeechEnd s)
      | Herror \<Rightarrow> handleError payload s)"

text \<open>
  The emitter calls the listeners in order; an exception of a listener ends the round and
  leaves the emitter uncaught.
\<close>

fun runListeners :: "env \<Rightarrow> handler list \<Rightarrow> jsval \<Rightarrow> page \<Rightarrow> page" where
  "runListeners e [] payload s = s"
| "runListeners e (h # hs) payload s =
     (case runHandler e h payload s of
        Inl x \<Rightarrow> s\<lparr>uncaught := uncaught s @ [x]\<rparr>
      | Inr s' \<Rightarrow> runListeners e hs payload s')"

definition emit :: "env \<Rightarrow> nat \<Rightarrow> string \<Rightarrow> jsval \<Rightarrow> page \<Rightarrow> page" where
  "emit e i ev payload s =
     (if i < length (channels s) then
        runListeners e (map snd (filter (\<lambda>l. fst l = ev) (listeners (channels s ! i)))) payload s
      else s)"

datatype action =
    SessionLoaded SessionDetail
  | Start
  | Stop
  | ReportFulfilled nat
  | ReportRejected nat
  | Emit nat string jsval

fun step :: "env \<Rightarrow> action \<Rightarrow> page \<Rightarrow> page" where
  "step e (SessionLoaded d) s = s\<lparr>sessionDetail := Some d\<rparr>"
| "step e Start s = StartCall e s"
| "step e Stop s = endCall e s"
| "step e (ReportFulfilled n) s = endCall_fulfilled n s"
| "step e (ReportRejected n) s = endCall_rejected n s"
| "step e (Emit i ev payload) s = emit e i ev payload s"

fun run :: "env \<Rightarrow> action list \<Rightarrow> page \<Rightarrow> page" where
  "run e [] s = s"
| "run e (a # as) s = run e as (step e a s)"

subsection \<open>The controls of the page\<close>

text \<open>
  The rendered page offers the controls only once the session detail is loaded: the start
  button while no call is started, the disconnect button while one is, and either is disabled
  while the loading flag is set. A click on a control that is not offered, or is disabled,
  runs no handler.
\<close>

definition clickStart :: "env \<Rightarrow> page \<Rightarrow> page" where
  "clickStart e s =
     (if sessionDetail s \<noteq> None \<and> \<not> callStarted s \<and> \<not> loading s then StartCall e s else s)"

definition clickDisconnect :: "env \<Rightarrow> page \<Rightarrow> page" where
  "clickDisconnect e s =
     (if sessionDetail s \<noteq> None \<and> callStarted s \<and> \<not> loading s then endCall e s else s)"

section \<open>The vocabulary of the specification\<close>

text \<open>
  The page keeps no state variable for the call: what the page shows of the four states of
  the specification is read off the two flags that decide the controls.
\<close>

datatype callState = Idle | Connecting | Active | Ending

definition callStateOf :: "page \<Rightarrow> callState" where
  "callStateOf s =
     (if callStarted s then (if loading s then Ending else Active)
      else (if loading s then Connecting else Idle))"

text \<open>The six kinds of event, and the argument \<^verbatim>\<open>StartCall\<close> passes to \<^verbatim>\<open>start\<close>.\<close>

definition eventKinds :: "string list" where
  "eventKinds = [''call-start'', ''call-end'', ''message'', ''speech-start'', ''speech-end'',
     ''error'']"

definition startArgOf :: "env \<Rightarrow> SessionDetail \<Rightarrow> startArg" where
  "startArgOf e d = (case present (assistantId e) of
      Some a \<Rightarrow> AssistantId a
    | None \<Rightarrow> InlineConfig (VapiAgentConfig d))"

text \<open>The field of a value, \<^verbatim>\<open>undefined\<close> where the value has none.\<close>

fun field :: "jsval \<Rightarrow> string \<Rightarrow> jsval" where
  "field (JObj ps) k = (case map_of ps k of None \<Rightarrow> JUndefined | Some v \<Rightarrow> v)"
| "field v k = JUndefined"

fun isStr :: "jsval \<Rightarrow> bool" where
  "isStr (JStr s) = True"
| "isStr v = False"

fun nonEmptyStr :: "jsval \<Rightarrow> bool" where
  "nonEmptyStr (JStr s) = (s \<noteq> [])"
| "nonEmptyStr v = False"

text \<open>Objects and arrays: the values that are truthy and of type \<^verbatim>\<open>object\<close>.\<close>

fun holder :: "jsval \<Rightarrow> bool" where
  "holder (JObj ps) = True"
| "holder (JArr vs) = True"
| "holder v = False"

text \<open>
  A well-formed transcript event: the type tag \<^verbatim>\<open>transcript\<close>, and strings for the role, the
  transcript type and the transcript.
\<close>

definition wellFormedTranscript :: "jsval \<Rightarrow> bool" where
  "wellFormedTranscript m = (field m ''type'' = JStr ''transcript'' \<and> isStr (field m ''role'')
     \<and> isStr (field m ''transcriptType'') \<and> isStr (field m ''transcript''))"

definition isPartialEvent :: "jsval \<Rightarrow> bool" where
  "isPartialEvent m = (field m ''type'' = JStr ''transcript'' \<and> isStr (field m ''role'')
     \<and> field m ''transcriptType'' = JStr ''partial'' \<and> isStr (field m ''transcript''))"

text \<open>A sequence of message events, handled one after the other.\<close>

fun handleMessages :: "env \<Rightarrow> jsval list \<Rightarrow> page \<Rightarrow> error + page" where
  "handleMessages e [] s = Inr s"
| "handleMessages e (m # ms) s = bindE (handleMessage e m s) (handleMessages e ms)"

text \<open>
  The ids of the log are the values the generator has handed out so far, in order.
\<close>

definition logIds :: "env \<Rightarrow> page \<Rightarrow> bool" where
  "logIds e s = (map msg_id (messages s) = map (randomUUID e) [0..<uuidCount s])"

text \<open>
  Extraction rules for the message of an error: a rule is a path of field names, and the
  first rule whose value is accepted gives the message.
\<close>

fun lookupPath :: "jsval \<Rightarrow> string list \<Rightarrow> jsval" where
  "lookupPath v [] = v"
| "lookupPath v (k # ks) = lookupPath (field v k) ks"

fun firstMatch :: "(jsval \<Rightarrow> bool) \<Rightarrow> string list list \<Rightarrow> jsval \<Rightarrow> jsval option" where
  "firstMatch ok [] v = None"
| "firstMatch ok (p # ps) v =
     (if ok (lookupPath v p) then Some (lookupPath v p) else firstMatch ok ps v)"

text \<open>
  The resolution order as the specification words it: the direct message, the message one
  level down, the message two levels down, the input itself if it is a string, the fixed
  fallback.
\<close>

definition claimedRules :: "string list list" where
  "claimedRules = [[''message''], [''error'', ''message''], [''error'', ''error'', ''message'']]"

definition claimedMessage :: "jsval \<Rightarrow> jsval" where
  "claimedMessage err =
     (case firstMatch isStr claimedRules err of
        Some m \<Rightarrow> m
      | None \<Rightarrow> if isStr err then err else JStr ''Call ended unexpectedly'')"

text \<open>The resolution order the handler follows; a rule matches a string that is not empty.\<close>

definition errorRules :: "string list list" where
  "errorRules = [[''errorMsg''], [''error'', ''errorMsg''], [''error'', ''message''],
     [''error'', ''error'', ''message''], [''message'']]"

definition orderedMessage :: "jsval \<Rightarrow> jsval" where
  "orderedMessage err =
     (case firstMatch nonEmptyStr errorRules err of
        Some m \<Rightarrow> m
      | None \<Rightarrow> if isStr err then err else JStr fallbackMessage)"

subsection \<open>A session, an environment and a call, for the examples\<close>

definition exampleDoctor :: doctorAgent where
  "exampleDoctor = \<lparr> voiceId = Some ''will'', agentPrompt = Some ''You are a general physician.'',
     image = ''/doctor1.png'', specialist = Some ''General Physician'' \<rparr>"

definition exampleSession :: SessionDetail where
  "exampleSession = \<lparr> sd_id = 1, sd_notes = ''headache'', sessionId = ''s-1'', report = JNull,
     selectedDoctor = Some exampleDoctor, createdOn = ''2025-01-01'' \<rparr>"

definition exampleEnv :: env where
  "exampleEnv = \<lparr> apiKey = Some ''key'', assistantId = Some ''assistant'',
     routeSessionId = ''s-1'', randomUUID = (\<lambda>n. replicate (Suc n) CHR ''u'') \<rparr>"

definition transcriptEvent :: "string \<Rightarrow> string \<Rightarrow> string \<Rightarrow> jsval" where
  "transcriptEvent r tt t = JObj [(''type'', JStr ''transcript''), (''role'', JStr r),
     (''transcriptType'', JStr tt), (''transcript'', JStr t)]"

text \<open>The page with the session loaded, and the page in a call that has started.\<close>

definition readyPage :: page where
  "readyPage = initialPage\<lparr>sessionDetail := Some exampleSession\<rparr>"

definition activePage :: page where
  "activePage = run exampleEnv [Start, Emit 0 ''call-start'' JUndefined] readyPage"

text \<open>The call after the patient's first finalized utterance, and the assistant's answer.\<close>

definition oneMessagePage :: page where
  "oneMessagePage =
     emit exampleEnv 0 ''message'' (transcriptEvent ''user'' ''final'' ''I have a headache'') activePage"

definition howLong :: jsval where
  "howLong = transcriptEvent ''assistant'' ''final'' ''How long?''"

definition mistypedRole :: jsval where
  "mistypedRole = JObj [(''type'', JStr ''transcript''), (''role'', JNum 7),
     (''transcriptType'', JStr ''final''), (''transcript'', JStr ''hello'')]"

text \<open>Three partial events, an environment without the key, and an error that wraps another.\<close>

definition partials :: "jsval list" where
  "partials = [transcriptEvent ''user'' ''partial'' ''I have'',
     transcriptEvent ''assistant'' ''partial'' ''How'',
     transcriptEvent ''user'' ''partial'' ''I have a head'']"

definition noKeyEnv :: env where
  "noKeyEnv = exampleEnv\<lparr>apiKey := Some []\<rparr>"

definition wrappedError :: jsval where
  "wrappedError = JObj [(''message'', JStr ''A''), (''error'', JObj [(''message'', JStr ''B'')])]"

text \<open>
  Runs of the page: a call the channel ends by itself, a call that is stopped while the
  channel also ends it, and a call started after an error of the channel.
\<close>

definition hangupRun :: "action list" where
  "hangupRun = [Start, Emit 0 ''call-start'' JUndefined,
     Emit 0 ''message'' (transcriptEvent ''user'' ''final'' ''I have a headache''),
     Emit 0 ''message'' howLong, Emit 0 ''call-end'' JUndefined]"

definition stopAndHangupRun :: "action list" where
  "stopAndHangupRun = [Start, Emit 0 ''call-start'' JUndefined,
     Emit 0 ''message'' (transcriptEvent ''user'' ''final'' ''I have a headache''),
     Emit 0 ''message'' howLong, Stop, Emit 0 ''call-end'' JUndefined, ReportFulfilled 0]"

definition boom :: jsval where
  "boom = JObj [(''error'', JObj [(''message'', JStr ''Meeting has ended'')])]"

definition staleRun :: "action list" where
  "staleRun = [Start, Emit 0 ''call-start'' JUndefined, Emit 0 ''error'' boom,
     Start, Emit 1 ''call-start'' JUndefined, Emit 0 ''call-end'' JUndefined]"

section \<open>Reading values without exceptions\<close>

lemma bindE_Inr: "bindE (Inr v) f = f v"
  by (simp add: bindE_def)

lemma optProp_field: "optProp v k = Inr (field v k)"
  by (cases v) simp_all

lemma getProp_field: "v \<noteq> JUndefined \<Longrightarrow> v \<noteq> JNull \<Longrightarrow> getProp v k = Inr (field v k)"
  by (cases v) simp_all

lemma typeof_string: "(typeof v = ''string'') = isStr v"
  by (cases v) simp_all

lemma isStr_ex: "isStr v \<Longrightarrow> \<exists>x. v = JStr x"
  by (cases v) simp_all

lemma field_nullish: "field v k \<noteq> JUndefined \<Longrightarrow> v \<noteq> JUndefined \<and> v \<noteq> JNull"
  by (cases v) simp_all

lemma holder_eq: "(truthy v \<and> typeof v = ''object'') = holder v"
  by (cases v) simp_all

lemma field_not_holder: "\<not> holder v \<Longrightarrow> field v k = JUndefined"
  by (cases v) simp_all

lemma field_nested: "field (if holder v then v else JUndefined) k = field v k"
  by (simp add: field_not_holder)

section \<open>The transcript assembler\<close>

lemma isTranscript_eq: "isTranscript m = Inr (wellFormedTranscript m)"
proof (cases "field m ''type'' = JStr ''transcript''")
  case True
  then have "m \<noteq> JUndefined \<and> m \<noteq> JNull"
    using field_nullish[of m "''type''"] by simp
  then have g: "\<And>k. getProp m k = Inr (field m k)"
    by (simp add: getProp_field)
  show ?thesis using True
    by (simp add: isTranscript_def wellFormedTranscript_def optProp_field g bindE_Inr typeof_string)
next
  case False
  then show ?thesis
    by (simp add: isTranscript_def wellFormedTranscript_def optProp_field bindE_Inr)
qed

lemma handleMessage_malformed: "\<not> wellFormedTranscript m \<Longrightarrow> handleMessage e m s = Inr s"
  by (simp add: handleMessage_def isTranscript_eq bindE_Inr)

lemma handleMessage_wellformed:
  assumes "field m ''type'' = JStr ''transcript''" "field m ''role'' = JStr r"
    "field m ''transcriptType'' = JStr tt" "field m ''transcript'' = JStr t"
  shows "handleMessage e m s =
     Inr (if tt = ''partial'' then s\<lparr>liveTranscript := t, currentRole := Some r\<rparr>
          else if tt = ''final'' then
            s\<lparr>messages := messages s @
                 [\<lparr>msg_id = randomUUID e (uuidCount s), msg_role = r, msg_text = t\<rparr>],
              uuidCount := Suc (uuidCount s), liveTranscript := [], currentRole := None\<rparr>
          else s)"
proof -
  have "m \<noteq> JUndefined \<and> m \<noteq> JNull"
    using field_nullish[of m "''type''"] assms(1) by simp
  then have g: "\<And>k. getProp m k = Inr (field m k)"
    by (simp add: getProp_field)
  have w: "wellFormedTranscript m"
    using assms by (simp add: wellFormedTranscript_def)
  show ?thesis
    by (simp add: handleMessage_def isTranscript_eq w g bindE_Inr assms)
qed

lemma handleMessage_cases:
  "handleMessage e m s = Inr s
   \<or> (\<exists>r t. handleMessage e m s = Inr (s\<lparr>liveTranscript := t, currentRole := Some r\<rparr>))
   \<or> (\<exists>r t. handleMessage e m s =
         Inr (s\<lparr>messages := messages s @
                 [\<lparr>msg_id = randomUUID e (uuidCount s), msg_role = r, msg_text = t\<rparr>],
               uuidCount := Suc (uuidCount s), liveTranscript := [], currentRole := None\<rparr>))"
proof (cases "wellFormedTranscript m")
  case False
  then show ?thesis by (simp add: handleMessage_malformed)
next
  case True
  then obtain r tt t where f: "field m ''type'' = JStr ''transcript''" "field m ''role'' = JStr r"
      "field m ''transcriptType'' = JStr tt" "field m ''transcript'' = JStr t"
    unfolding wellFormedTranscript_def by (meson isStr_ex)
  show ?thesis unfolding handleMessage_wellformed[OF f] by auto
qed

lemma handleMessage_total: "\<exists>s'. handleMessage e m s = Inr s'"
  using handleMessage_cases[of e m s] by auto

text \<open>A transcript event of a type other than partial and final changes nothing.\<close>

lemma unknown_transcript_type_ignored:
  assumes "wellFormedTranscript m" "field m ''transcriptType'' \<noteq> JStr ''partial''"
    "field m ''transcriptType'' \<noteq> JStr ''final''"
  shows "handleMessage e m s = Inr s"
proof -
  obtain r tt t where f: "field m ''type'' = JStr ''transcript''" "field m ''role'' = JStr r"
      "field m ''transcriptType'' = JStr tt" "field m ''transcript'' = JStr t"
    using assms(1) unfolding wellFormedTranscript_def by (meson isStr_ex)
  show ?thesis using handleMessage_wellformed[OF f, of e s] assms(2,3) f(3) by simp
qed

lemma logIds_fresh:
  assumes "inj (randomUUID e)" "logIds e s"
  shows "randomUUID e (uuidCount s) \<notin> set (map msg_id (messages s))"
proof -
  have "set (map msg_id (messages s)) = randomUUID e ` {0..<uuidCount s}"
    using assms(2) by (simp add: logIds_def)
  moreover have "randomUUID e (uuidCount s) \<notin> randomUUID e ` {0..<uuidCount s}"
    using assms(1) by (auto dest: injD)
  ultimately show ?thesis by simp
qed

lemma inj_example: "inj (randomUUID exampleEnv)"
proof (rule injI)
  fix x y
  assume "randomUUID exampleEnv x = randomUUID exampleEnv y"
  then have "length (replicate (Suc x) CHR ''u'') = length (replicate (Suc y) CHR ''u'')"
    by (simp add: exampleEnv_def)
  then show "x = y" by simp
qed

text \<open>
  Claim C9. A malformed message event (a wrong type tag, or a role, transcript type or
  transcript that is missing or not a string) makes \<^verbatim>\<open>handleMessage\<close> return without an
  exception and leaves the page as it was: the finalized log and the utterance in progress are
  unchanged. No message event at all makes the handler throw.
\<close>

theorem malformed_event_ignored:
  "(\<exists>s'. handleMessage e m s = Inr s')
   \<and> (\<not> wellFormedTranscript m \<longrightarrow> handleMessage e m s = Inr s)"
  by (simp add: handleMessage_total handleMessage_malformed)

theorem malformed_event_ignored_witness:
  "\<not> wellFormedTranscript JNull
   \<and> handleMessage exampleEnv JNull activePage = Inr activePage
   \<and> \<not> wellFormedTranscript mistypedRole
   \<and> handleMessage exampleEnv mistypedRole activePage = Inr activePage"
  using malformed_event_ignored[of exampleEnv JNull activePage]
    malformed_event_ignored[of exampleEnv mistypedRole activePage]
  by (simp add: wellFormedTranscript_def mistypedRole_def)

text \<open>
  Claim C7. A well-formed final transcript event makes the finalized log longer by exactly
  one: the entries it had are kept as they are, and the new last entry has the role and the
  text of the event and the id the generator returns at that moment. The utterance in progress
  is cleared. The ids stay the values the generator has handed out, so that the new id differs
  from every id of the log when the generator never repeats a value.
\<close>

theorem final_event_appends:
  assumes "field m ''type'' = JStr ''transcript''" "field m ''role'' = JStr r"
    "field m ''transcriptType'' = JStr ''final''" "field m ''transcript'' = JStr t"
  shows "\<exists>s'. handleMessage e m s = Inr s'
     \<and> length (messages s') = Suc (length (messages s))
     \<and> messages s' = messages s @
          [\<lparr>msg_id = randomUUID e (uuidCount s), msg_role = r, msg_text = t\<rparr>]
     \<and> liveTranscript s' = [] \<and> currentRole s' = None
     \<and> (logIds e s \<longrightarrow> logIds e s')
     \<and> (inj (randomUUID e) \<longrightarrow> logIds e s \<longrightarrow>
          randomUUID e (uuidCount s) \<notin> set (map msg_id (messages s)))"
  using handleMessage_wellformed[OF assms, of e s] logIds_fresh[of e s]
  by (simp add: logIds_def)

theorem final_event_appends_witness:
  "field howLong ''type'' = JStr ''transcript'' \<and> field howLong ''role'' = JStr ''assistant''
   \<and> field howLong ''transcriptType'' = JStr ''final''
   \<and> field howLong ''transcript'' = JStr ''How long?''
   \<and> inj (randomUUID exampleEnv) \<and> logIds exampleEnv oneMessagePage
   \<and> (\<exists>s'. handleMessage exampleEnv howLong oneMessagePage = Inr s'
        \<and> length (messages s') = 2
        \<and> messages s' =
            [\<lparr>msg_id = ''u'', msg_role = ''user'', msg_text = ''I have a headache''\<rparr>,
             \<lparr>msg_id = ''uu'', msg_role = ''assistant'', msg_text = ''How long?''\<rparr>]
        \<and> liveTranscript s' = [] \<and> currentRole s' = None \<and> logIds exampleEnv s'
        \<and> ''uu'' \<notin> set (map msg_id (messages oneMessagePage)))"
proof -
  have f1: "field howLong ''type'' = JStr ''transcript''" by code_simp
  have f2: "field howLong ''role'' = JStr ''assistant''" by code_simp
  have f3: "field howLong ''transcriptType'' = JStr ''final''" by code_simp
  have f4: "field howLong ''transcript'' = JStr ''How long?''" by code_simp
  have l: "logIds exampleEnv oneMessagePage" by code_simp
  have m: "messages oneMessagePage =
      [\<lparr>msg_id = ''u'', msg_role = ''user'', msg_text = ''I have a headache''\<rparr>]"
    by code_simp
  have u: "randomUUID exampleEnv (uuidCount oneMessagePage) = ''uu''" by code_simp
  show ?thesis
    using final_event_appends[OF f1 f2 f3 f4, of exampleEnv oneMessagePage] inj_example l
    by (auto simp add: f1 f2 f3 f4 m u)
qed

lemma partial_run:
  assumes "\<forall>m\<in>set ms. isPartialEvent m" "ms \<noteq> []"
  shows "\<exists>r t. field (last ms) ''role'' = JStr r \<and> field (last ms) ''transcript'' = JStr t
     \<and> handleMessages e ms s = Inr (s\<lparr>liveTranscript := t, currentRole := Some r\<rparr>)"
  using assms
proof (induction ms arbitrary: s)
  case Nil
  then show ?case by simp
next
  case (Cons m ms)
  from Cons.prems(1) have "isPartialEvent m" by simp
  then obtain r t where f: "field m ''type'' = JStr ''transcript''" "field m ''role'' = JStr r"
      "field m ''transcriptType'' = JStr ''partial''" "field m ''transcript'' = JStr t"
    unfolding isPartialEvent_def by (meson isStr_ex)
  have h: "handleMessage e m s = Inr (s\<lparr>liveTranscript := t, currentRole := Some r\<rparr>)"
    using handleMessage_wellformed[OF f] by simp
  show ?case
  proof (cases "ms = []")
    case True
    then show ?thesis using f h by (simp add: bindE_Inr)
  next
    case False
    then obtain r' t' where "field (last ms) ''role'' = JStr r'"
      "field (last ms) ''transcript'' = JStr t'"
      "handleMessages e ms (s\<lparr>liveTranscript := t, currentRole := Some r\<rparr>)
         = Inr (s\<lparr>liveTranscript := t, currentRole := Some r\<rparr>
                 \<lparr>liveTranscript := t', currentRole := Some r'\<rparr>)"
      using Cons.IH[of "s\<lparr>liveTranscript := t, currentRole := Some r\<rparr>"] Cons.prems(1) by auto
    then show ?thesis using False h by (simp add: bindE_Inr)
  qed
qed

text \<open>
  Claim C8. Along any sequence of well-formed partial transcript events, after each event the
  utterance in progress is the role and the text of that event, the most recent one, whatever
  the earlier ones said; nothing else of the page changes, so the finalized log is as it was
  before the sequence.
\<close>

theorem partial_events_replace_utterance:
  assumes "\<forall>m\<in>set ms. isPartialEvent m" "0 < n" "n \<le> length ms"
  shows "\<exists>r t s'. field (ms ! (n - 1)) ''role'' = JStr r
     \<and> field (ms ! (n - 1)) ''transcript'' = JStr t
     \<and> handleMessages e (take n ms) s = Inr s'
     \<and> currentRole s' = Some r \<and> liveTranscript s' = t
     \<and> messages s' = messages s
     \<and> s' = s\<lparr>liveTranscript := t, currentRole := Some r\<rparr>"
proof -
  have a: "\<forall>m\<in>set (take n ms). isPartialEvent m"
    using assms(1) by (meson in_set_takeD)
  have b: "take n ms \<noteq> []" using assms(2,3) by auto
  have c: "last (take n ms) = ms ! (n - 1)"
    using assms(2,3) b by (simp add: last_conv_nth min_def)
  show ?thesis using partial_run[OF a b, of e s] by (auto simp: c)
qed

theorem partial_events_replace_utterance_witness:
  "list_all isPartialEvent partials \<and> (0::nat) < 2 \<and> 2 \<le> length partials
   \<and> (\<exists>s'. handleMessages exampleEnv (take 2 partials) oneMessagePage = Inr s'
        \<and> currentRole s' = Some ''assistant'' \<and> liveTranscript s' = ''How''
        \<and> messages s' = messages oneMessagePage)"
proof -
  have a: "\<forall>m\<in>set partials. isPartialEvent m" by code_simp
  have b: "(0::nat) < 2" by simp
  have c: "2 \<le> length partials" by code_simp
  have r: "field (partials ! Suc 0) ''role'' = JStr ''assistant''" by code_simp
  have t: "field (partials ! Suc 0) ''transcript'' = JStr ''How''" by code_simp
  show ?thesis
    using partial_events_replace_utterance[OF a b c, of exampleEnv oneMessagePage] a c
    by (auto simp: r t list_all_iff)
qed

section \<open>The message of an error\<close>

lemma nestedOf_eq:
  "nestedOf x = Inr (if holder (field x ''error'') then field x ''error'' else JUndefined)"
proof (cases "truthy (field x ''error'')")
  case True
  then have "field x ''error'' \<noteq> JUndefined" by auto
  then have "x \<noteq> JUndefined \<and> x \<noteq> JNull" by (rule field_nullish)
  then have g: "getProp x ''error'' = Inr (field x ''error'')" by (simp add: getProp_field)
  show ?thesis using True holder_eq[of "field x ''error''"]
    by (simp add: nestedOf_def optProp_field g bindE_Inr)
next
  case False
  then have "\<not> holder (field x ''error'')" using holder_eq[of "field x ''error''"] by simp
  with False show ?thesis by (simp add: nestedOf_def optProp_field bindE_Inr)
qed

lemma strField_eq: "strField x f = Inr (if isStr (field x f) then field x f else JBool False)"
proof (cases "isStr (field x f)")
  case True
  then have "field x f \<noteq> JUndefined" by auto
  then have "x \<noteq> JUndefined \<and> x \<noteq> JNull" by (rule field_nullish)
  then have g: "getProp x f = Inr (field x f)" by (simp add: getProp_field)
  show ?thesis using True by (simp add: strField_def optProp_field g bindE_Inr typeof_string)
next
  case False
  then show ?thesis by (simp add: strField_def optProp_field bindE_Inr typeof_string)
qed

lemma orElse_strField:
  "orElse (strField x f) b = (if nonEmptyStr (field x f) then Inr (field x f) else b)"
  by (cases "field x f") (simp_all add: orElse_def strField_eq bindE_Inr)

lemma errorMessage_eq: "errorMessage err = Inr (orderedMessage err)"
  by (simp add: errorMessage_def nestedOf_eq bindE_Inr orElse_strField field_nested
      orderedMessage_def errorRules_def typeof_string cong: if_cong)

lemma handleError_eq:
  "handleError err s = Inr ((resetCallState s)\<lparr>vapiHandlersRef := None,
       toasts := toasts s @ [ToastError (orderedMessage err)]\<rparr>)"
  by (simp add: handleError_def errorMessage_eq bindE_Inr)

text \<open>
  Claim C6, as stated, fails. For an error with a direct message and a nested one the handler
  shows the nested message, where the claimed order gives the direct one; and the fallback of
  the handler ends with a full stop.
\<close>

theorem nested_message_precedes_direct:
  "errorMessage wrappedError = Inr (JStr ''B'') \<and> claimedMessage wrappedError = JStr ''A''
   \<and> errorMessage wrappedError \<noteq> Inr (claimedMessage wrappedError)
   \<and> errorMessage (JObj []) = Inr (JStr ''Call ended unexpectedly.'')
   \<and> claimedMessage (JObj []) = JStr ''Call ended unexpectedly''"
  by code_simp

text \<open>
  Claim C6, amended. For every value the handler shows the first of these that is a string and
  not empty: the direct \<^verbatim>\<open>errorMsg\<close>, the \<^verbatim>\<open>errorMsg\<close> one level down under \<^verbatim>\<open>error\<close>,
  the \<^verbatim>\<open>message\<close> one level down, the \<^verbatim>\<open>message\<close> two levels down, the direct
  \<^verbatim>\<open>message\<close>; failing these, the input itself if it is a string, and else the fixed text
  \<^verbatim>\<open>Call ended unexpectedly.\<close> It never throws. In particular a message that is two
  levels down and not empty is shown, and the empty object gives the fixed text.
\<close>

theorem errorMessage_follows_rules:
  "errorMessage err = Inr (orderedMessage err)
   \<and> errorMessage (JObj [(''error'', JObj [(''error'', JObj [(''message'', JStr (c # cs))])])])
       = Inr (JStr (c # cs))
   \<and> errorMessage (JObj []) = Inr (JStr ''Call ended unexpectedly.'')"
  by (simp add: errorMessage_eq orderedMessage_def errorRules_def fallbackMessage_def)

section \<open>Starting and ending a call\<close>

lemma callStateOf_Idle: "(callStateOf s = Idle) = (\<not> callStarted s \<and> \<not> loading s)"
  by (simp add: callStateOf_def)

text \<open>
  Claim C5. When \<^verbatim>\<open>StartCall\<close> runs on an idle page that has its session detail, and the
  key of the channel is unset or empty, it shows the error notification
  \<^verbatim>\<open>Missing NEXT_PUBLIC_VAPI_API_KEY\<close> and changes nothing else: the page stays idle, no
  channel object is created and no listener is registered.
\<close>

theorem missing_key_fails_start:
  assumes "sessionDetail s = Some d" "present (apiKey e) = None" "callStateOf s = Idle"
  shows "StartCall e s = s\<lparr>toasts := toasts s @ [ToastError missingKeyMessage]\<rparr>
     \<and> callStateOf (StartCall e s) = Idle
     \<and> vapiInstance (StartCall e s) = vapiInstance s
     \<and> vapiHandlersRef (StartCall e s) = vapiHandlersRef s
     \<and> channels (StartCall e s) = channels s
     \<and> posts (StartCall e s) = posts s"
proof -
  have "\<not> loading s" using assms(3) by (simp add: callStateOf_Idle)
  then have "s\<lparr>loading := False\<rparr> = s" by simp
  then show ?thesis using assms
    by (simp add: StartCall_def callStateOf_Idle)
qed

theorem missing_key_fails_start_witness:
  "sessionDetail readyPage = Some exampleSession \<and> present (apiKey noKeyEnv) = None
   \<and> callStateOf readyPage = Idle
   \<and> StartCall noKeyEnv readyPage
       = readyPage\<lparr>toasts := [ToastError (JStr ''Missing NEXT_PUBLIC_VAPI_API_KEY'')]\<rparr>
   \<and> callStateOf (StartCall noKeyEnv readyPage) = Idle
   \<and> channels (StartCall noKeyEnv readyPage) = []"
proof -
  have a: "sessionDetail readyPage = Some exampleSession" by code_simp
  have b: "present (apiKey noKeyEnv) = None" by code_simp
  have c: "callStateOf readyPage = Idle" by code_simp
  have d: "toasts readyPage = []" by code_simp
  have f: "channels readyPage = []" by code_simp
  show ?thesis using missing_key_fails_start[OF a b c] c
    by (simp add: a b d f missingKeyMessage_def callStateOf_Idle)
qed


lemma StartCall_with_key:
  assumes "sessionDetail s = Some d" "present (apiKey e) = Some k"
  shows "StartCall e s = s\<lparr>loading := True, vapiInstance := Some (length (channels s)),
      vapiHandlersRef := Some (length (channels s)),
      channels := channels s @
        [\<lparr>vapi_key = k,
          listeners = map (\<lambda>(ev, h). (ev, (length (channels s), h))) eventNames,
          starts = [startArgOf e d], stops = 0\<rparr>]\<rparr>"
  using assms
  by (simp add: StartCall_def Let_def eventNames_def on_def newVapi_def startArgOf_def)

lemma no_listeners_concat:
  "list_all (\<lambda>c. listeners c = []) cs \<Longrightarrow> concat (map listeners cs) = []"
  by (induction cs) simp_all

text \<open>
  Claim C2. A click on the start control does nothing in any state but Idle (while a call is
  started or the loading flag is set), and a click on the disconnect control does nothing
  while Idle: no channel is opened, nothing is torn down, no report is submitted, no exception
  is raised. Two start clicks in a row on an idle page with its session detail and the key
  leave what one leaves: the page is connecting and holds one new channel object, started
  once, with one listener for each of the six kinds of event. On a page that has opened no
  channel before this is the only channel object, and where the earlier channel objects hold
  no listener any more it carries the only listener of each kind.
\<close>

theorem controls_guard_start_and_stop:
  "(callStateOf s \<noteq> Idle \<longrightarrow> clickStart e s = s)
   \<and> (callStateOf s = Idle \<longrightarrow> clickDisconnect e s = s)
   \<and> (callStateOf s = Idle \<and> sessionDetail s = Some d \<and> present (apiKey e) = Some k \<longrightarrow>
        clickStart e (clickStart e s) = clickStart e s
        \<and> callStateOf (clickStart e (clickStart e s)) = Connecting
        \<and> vapiInstance (clickStart e (clickStart e s)) = Some (length (channels s))
        \<and> posts (clickStart e (clickStart e s)) = posts s
        \<and> uncaught (clickStart e (clickStart e s)) = uncaught s
        \<and> (\<exists>c. channels (clickStart e (clickStart e s)) = channels s @ [c]
              \<and> map fst (listeners c) = eventKinds
              \<and> length (starts c) = 1 \<and> stops c = 0)
        \<and> (channels s = [] \<longrightarrow> length (channels (clickStart e (clickStart e s))) = 1)
        \<and> (list_all (\<lambda>c. listeners c = []) (channels s) \<longrightarrow>
             list_all (\<lambda>ev. length (filter (\<lambda>l. fst l = ev)
                 (concat (map listeners (channels (clickStart e (clickStart e s)))))) = 1)
               eventKinds))"
proof (intro conjI impI)
  assume "callStateOf s \<noteq> Idle"
  then show "clickStart e s = s"
    by (auto simp: clickStart_def callStateOf_Idle)
next
  assume "callStateOf s = Idle"
  then show "clickDisconnect e s = s"
    by (simp add: clickDisconnect_def callStateOf_Idle)
next
  assume a: "callStateOf s = Idle \<and> sessionDetail s = Some d \<and> present (apiKey e) = Some k"
  then have c: "clickStart e s = StartCall e s"
    by (simp add: clickStart_def callStateOf_Idle)
  have st: "StartCall e s = s\<lparr>loading := True, vapiInstance := Some (length (channels s)),
      vapiHandlersRef := Some (length (channels s)),
      channels := channels s @
        [\<lparr>vapi_key = k,
          listeners = map (\<lambda>(ev, h). (ev, (length (channels s), h))) eventNames,
          starts = [startArgOf e d], stops = 0\<rparr>]\<rparr>"
    using a by (simp add: StartCall_with_key)
  show twice: "clickStart e (clickStart e s) = clickStart e s"
    unfolding c unfolding st by (simp add: clickStart_def)
  have r: "clickStart e (clickStart e s) = s\<lparr>loading := True,
      vapiInstance := Some (length (channels s)),
      vapiHandlersRef := Some (length (channels s)),
      channels := channels s @
        [\<lparr>vapi_key = k,
          listeners = map (\<lambda>(ev, h). (ev, (length (channels s), h))) eventNames,
          starts = [startArgOf e d], stops = 0\<rparr>]\<rparr>"
    using twice c st by simp
  show "callStateOf (clickStart e (clickStart e s)) = Connecting"
    unfolding r using a by (simp add: callStateOf_def split: if_splits)
  show "vapiInstance (clickStart e (clickStart e s)) = Some (length (channels s))"
    unfolding r by simp
  show "posts (clickStart e (clickStart e s)) = posts s"
    unfolding r by simp
  show "uncaught (clickStart e (clickStart e s)) = uncaught s"
    unfolding r by simp
  show "\<exists>c. channels (clickStart e (clickStart e s)) = channels s @ [c]
              \<and> map fst (listeners c) = eventKinds
              \<and> length (starts c) = 1 \<and> stops c = 0"
    unfolding r by (simp add: eventNames_def eventKinds_def)
  {
    assume "channels s = []"
    then show "length (channels (clickStart e (clickStart e s))) = 1"
      unfolding r by simp
  }
  {
    assume "list_all (\<lambda>c. listeners c = []) (channels s)"
    then have "concat (map listeners (channels s)) = []"
      by (rule no_listeners_concat)
    then show "list_all (\<lambda>ev. length (filter (\<lambda>l. fst l = ev)
                 (concat (map listeners (channels (clickStart e (clickStart e s)))))) = 1)
               eventKinds"
      unfolding r by (simp add: eventNames_def eventKinds_def)
  }
qed

theorem controls_guard_start_and_stop_witness:
  "callStateOf activePage \<noteq> Idle \<and> clickStart exampleEnv activePage = activePage
   \<and> callStateOf readyPage = Idle \<and> clickDisconnect exampleEnv readyPage = readyPage
   \<and> sessionDetail readyPage = Some exampleSession \<and> present (apiKey exampleEnv) = Some ''key''
   \<and> channels readyPage = [] \<and> list_all (\<lambda>c. listeners c = []) (channels readyPage)
   \<and> clickStart exampleEnv (clickStart exampleEnv readyPage) = clickStart exampleEnv readyPage
   \<and> callStateOf (clickStart exampleEnv (clickStart exampleEnv readyPage)) = Connecting
   \<and> (\<exists>c. channels (clickStart exampleEnv (clickStart exampleEnv readyPage)) = [c]
         \<and> map fst (listeners c) = eventKinds \<and> length (starts c) = 1 \<and> stops c = 0)
   \<and> length (channels (clickStart exampleEnv (clickStart exampleEnv readyPage))) = 1
   \<and> list_all (\<lambda>ev. length (filter (\<lambda>l. fst l = ev)
         (concat (map listeners
            (channels (clickStart exampleEnv (clickStart exampleEnv readyPage)))))) = 1)
       eventKinds"
proof -
  have a: "callStateOf activePage \<noteq> Idle" by code_simp
  have b: "callStateOf readyPage = Idle" by code_simp
  have c: "sessionDetail readyPage = Some exampleSession" by code_simp
  have d: "present (apiKey exampleEnv) = Some ''key''" by code_simp
  have h: "channels readyPage = []" by code_simp
  show ?thesis
    using controls_guard_start_and_stop[of activePage exampleEnv exampleSession "''key''"]
      controls_guard_start_and_stop[of readyPage exampleEnv exampleSession "''key''"]
    by (auto simp add: a b c d h)
qed

text \<open>
  The handlers themselves, which the controls run in no other state, carry no check of the
  call: \<^verbatim>\<open>StartCall\<close> looks at the session detail and the key only, and \<^verbatim>\<open>endCall\<close> sends
  the report before it looks at the channel instance. Called directly, \<^verbatim>\<open>StartCall\<close> on a
  page in a call creates a second channel object, and \<^verbatim>\<open>endCall\<close> on the idle page submits
  a report; with no channel instance held it then tears nothing down, notifies nothing and
  does not leave the page.
\<close>

lemma handlers_called_directly:
  "callStateOf activePage = Active \<and> length (channels activePage) = 1
   \<and> StartCall exampleEnv activePage \<noteq> activePage
   \<and> length (channels (StartCall exampleEnv activePage)) = 2
   \<and> length (channels (StartCall exampleEnv (StartCall exampleEnv readyPage))) = 2
   \<and> callStateOf readyPage = Idle \<and> posts readyPage = []
   \<and> length (posts (endCall exampleEnv readyPage)) = 1
   \<and> endCall exampleEnv readyPage \<noteq> readyPage"
  by code_simp

lemma endCall_without_instance:
  assumes "vapiInstance s = None"
  shows "endCall_fulfilled (length (pending s)) (endCall e s)
     = s\<lparr>loading := False, posts := posts s @ [reportBody e s]\<rparr>"
  using assms by (simp add: endCall_fulfilled_def endCall_def GenerateReport_def)

text \<open>
  The channel objects a call leaves behind when the channel ends it still hold their
  listeners: two start clicks after such a call leave two channel objects with six listeners
  each, one of them the page's.
\<close>

lemma start_after_hangup:
  "callStateOf (run exampleEnv hangupRun readyPage) = Idle
   \<and> map (\<lambda>c. length (listeners c))
        (channels (clickStart exampleEnv (clickStart exampleEnv (run exampleEnv hangupRun readyPage))))
       = [6, 6]
   \<and> vapiInstance (clickStart exampleEnv (clickStart exampleEnv (run exampleEnv hangupRun readyPage)))
       = Some 1"
  by code_simp

section \<open>Report submissions\<close>

lemma runHandler_cases:
  "runHandler e h p s = Inr (handleCallStart s) \<or> runHandler e h p s = Inr (handleCallEnd s)
   \<or> runHandler e h p s = handleMessage e p s
   \<or> runHandler e h p s = Inr (handleSpeechStart s) \<or> runHandler e h p s = Inr (handleSpeechEnd s)
   \<or> runHandler e h p s = handleError p s"
  by (cases "snd h") (simp_all add: runHandler_def)

lemma runHandler_frame:
  assumes "runHandler e h p s = Inr s'"
  shows "posts s' = posts s \<and> pending s' = pending s \<and> channels s' = channels s
     \<and> redirects s' = redirects s \<and> sessionDetail s' = sessionDetail s
     \<and> uncaught s' = uncaught s"
proof (cases "snd h")
  case Hmessage
  then have "handleMessage e p s = Inr s'" using assms by (simp add: runHandler_def)
  then show ?thesis using handleMessage_cases[of e p s] by auto
next
  case Herror
  then have "handleError p s = Inr s'" using assms by (simp add: runHandler_def)
  then show ?thesis by (auto simp: handleError_eq resetCallState_def)
qed (use assms in \<open>auto simp: runHandler_def handleCallStart_def handleCallEnd_def
      resetCallState_def handleSpeechStart_def handleSpeechEnd_def\<close>)

lemma runHandler_total: "\<exists>s'. runHandler e h p s = Inr s'"
proof (cases "snd h")
  case Hmessage
  then show ?thesis using handleMessage_total[of e p s] by (simp add: runHandler_def)
qed (simp_all add: runHandler_def handleError_eq)

lemma posts_runListeners: "posts (runListeners e hs p s) = posts s"
proof (induction hs arbitrary: s)
  case Nil
  then show ?case by simp
next
  case (Cons h hs)
  obtain s' where r: "runHandler e h p s = Inr s'" using runHandler_total by blast
  show ?case using Cons[of s'] runHandler_frame[OF r] by (simp add: r)
qed

lemma posts_emit: "posts (emit e i ev p s) = posts s"
  by (simp add: emit_def posts_runListeners)

lemma posts_StartCall: "posts (StartCall e s) = posts s"
  by (simp add: StartCall_def Let_def split: option.splits)

lemma posts_fulfilled: "posts (endCall_fulfilled n s) = posts s"
  by (simp add: endCall_fulfilled_def Let_def resetCallState_def onChannel_def split: option.splits)

lemma posts_rejected: "posts (endCall_rejected n s) = posts s"
  by (simp add: endCall_rejected_def)

lemma posts_endCall: "posts (endCall e s) = posts s @ [reportBody e s]"
  by (simp add: endCall_def GenerateReport_def)

lemma posts_step:
  "posts (step e a s) = posts s @ (if a = Stop then [reportBody e s] else [])"
  by (cases a) (simp_all add: posts_emit posts_StartCall posts_fulfilled posts_rejected posts_endCall)

lemma length_posts_run:
  "length (posts (run e tr s)) = length (posts s) + count_list tr Stop"
  by (induction tr arbitrary: s) (simp_all add: posts_step)

text \<open>
  Claim C1, as stated, fails. A call that started, took two finalized utterances and was
  ended by the channel (the event \<^verbatim>\<open>call-end\<close>) is back to Idle with no report submitted:
  \<^verbatim>\<open>handleCallEnd\<close> resets the state and does not call \<^verbatim>\<open>GenerateReport\<close>.
\<close>

theorem remote_hangup_submits_no_report:
  "callStateOf (run exampleEnv (take 4 hangupRun) readyPage) = Active
   \<and> callStateOf (run exampleEnv hangupRun readyPage) = Idle
   \<and> vapiInstance (run exampleEnv hangupRun readyPage) = None
   \<and> length (messages (run exampleEnv hangupRun readyPage)) = 2
   \<and> length (posts (run exampleEnv hangupRun readyPage)) = 0"
  by code_simp

text \<open>
  Claim C1, amended. Every run of \<^verbatim>\<open>endCall\<close> submits exactly one report, with the log and
  the session data of that moment, and nothing else the page does submits one: along any run
  of the page the number of submissions grows by the number of explicit stops. So a call that
  is stopped once has exactly one submission, also when the channel ends it too while the
  report is awaited, and a call only the channel ends has none.
\<close>

theorem one_report_per_stop:
  "posts (step e a s) = posts s @ (if a = Stop then [reportBody e s] else [])
   \<and> length (posts (run e tr s)) = length (posts s) + count_list tr Stop
   \<and> posts (run exampleEnv stopAndHangupRun readyPage)
       = [\<lparr>req_messages =
            [\<lparr>msg_id = ''u'', msg_role = ''user'', msg_text = ''I have a headache''\<rparr>,
             \<lparr>msg_id = ''uu'', msg_role = ''assistant'', msg_text = ''How long?''\<rparr>],
           req_sessionDetail = Some exampleSession, req_sessionId = ''s-1''\<rparr>]"
proof -
  have "posts (run exampleEnv stopAndHangupRun readyPage)
       = [\<lparr>req_messages =
            [\<lparr>msg_id = ''u'', msg_role = ''user'', msg_text = ''I have a headache''\<rparr>,
             \<lparr>msg_id = ''uu'', msg_role = ''assistant'', msg_text = ''How long?''\<rparr>],
           req_sessionDetail = Some exampleSession, req_sessionId = ''s-1''\<rparr>]"
    by code_simp
  then show ?thesis by (simp add: posts_step length_posts_run)
qed

text \<open>
  Claim C4. The page at the failing input: a call is stopped and the report request is
  rejected. \<^verbatim>\<open>endCall\<close> ends at its first line: the channel is not stopped, the six
  listeners stay, the page stays in the call with the loading flag set and both controls
  dead, and there is no notification, only the uncaught rejection.
\<close>

theorem rejected_report_blocks_teardown:
  "callStateOf activePage = Active
   \<and> callStateOf (run exampleEnv [Stop, ReportRejected 0] activePage) = Ending
   \<and> loading (run exampleEnv [Stop, ReportRejected 0] activePage)
   \<and> vapiInstance (run exampleEnv [Stop, ReportRejected 0] activePage) = Some 0
   \<and> toasts (run exampleEnv [Stop, ReportRejected 0] activePage) = []
   \<and> uncaught (run exampleEnv [Stop, ReportRejected 0] activePage) = [RequestFailed]
   \<and> stops (channels (run exampleEnv [Stop, ReportRejected 0] activePage) ! 0) = 0
   \<and> map fst (listeners (channels (run exampleEnv [Stop, ReportRejected 0] activePage) ! 0))
       = eventKinds
   \<and> clickDisconnect exampleEnv (run exampleEnv [Stop, ReportRejected 0] activePage)
       = run exampleEnv [Stop, ReportRejected 0] activePage
   \<and> clickStart exampleEnv (run exampleEnv [Stop, ReportRejected 0] activePage)
       = run exampleEnv [Stop, ReportRejected 0] activePage"
  by code_simp


section \<open>Errors of the channel\<close>

text \<open>
  Claim C3. The page at the failing input: an error event in a call. The handler shows the
  normalized message, resets the page to Idle and submits no report, but it removes no
  listener from the channel object and does not stop it: it only forgets the handlers.
\<close>

theorem error_event_keeps_listeners:
  "callStateOf activePage = Active
   \<and> callStateOf (emit exampleEnv 0 ''error'' boom activePage) = Idle
   \<and> vapiInstance (emit exampleEnv 0 ''error'' boom activePage) = None
   \<and> vapiHandlersRef (emit exampleEnv 0 ''error'' boom activePage) = None
   \<and> toasts (emit exampleEnv 0 ''error'' boom activePage) = [ToastError (JStr ''Meeting has ended'')]
   \<and> posts (emit exampleEnv 0 ''error'' boom activePage) = []
   \<and> map fst (listeners (channels (emit exampleEnv 0 ''error'' boom activePage) ! 0)) = eventKinds
   \<and> listeners (channels (emit exampleEnv 0 ''error'' boom activePage) ! 0)
       = listeners (channels activePage ! 0)
   \<and> stops (channels (emit exampleEnv 0 ''error'' boom activePage) ! 0) = 0"
  by code_simp

text \<open>
  The explicit stop, for comparison, stops the channel and removes the six listeners.
\<close>

lemma stop_removes_listeners:
  "listeners (channels (run exampleEnv [Stop, ReportFulfilled 0] activePage) ! 0) = []
   \<and> stops (channels (run exampleEnv [Stop, ReportFulfilled 0] activePage) ! 0) = 1
   \<and> callStateOf (run exampleEnv [Stop, ReportFulfilled 0] activePage) = Idle
   \<and> toasts (run exampleEnv [Stop, ReportFulfilled 0] activePage)
       = [ToastSuccess ''Your report is generated!'']
   \<and> redirects (run exampleEnv [Stop, ReportFulfilled 0] activePage) = [''/dashboard'']"
  by code_simp

text \<open>
  What the listeners left behind do: after the error a second call is started, and a late
  \<^verbatim>\<open>call-end\<close> of the first channel resets the page while the second channel runs on,
  started and never stopped.
\<close>

lemma stale_listener_resets_next_call:
  "callStateOf (run exampleEnv (take 5 staleRun) readyPage) = Active
   \<and> vapiInstance (run exampleEnv (take 5 staleRun) readyPage) = Some 1
   \<and> callStateOf (run exampleEnv staleRun readyPage) = Idle
   \<and> vapiInstance (run exampleEnv staleRun readyPage) = None
   \<and> length (starts (channels (run exampleEnv staleRun readyPage) ! 1)) = 1
   \<and> stops (channels (run exampleEnv staleRun readyPage) ! 1) = 0"
  by code_simp


section \<open>The log across resets\<close>

text \<open>
  Claim C10. \<^verbatim>\<open>resetCallState\<close> writes the call-started flag, the channel instance, the
  current speaker, the transcript in progress and the loading flag, and nothing else: putting
  these five back gives the page it started from. Every path back to Idle (the explicit stop
  before and after its report request, the channel's \<^verbatim>\<open>call-end\<close>, the channel's
  \<^verbatim>\<open>error\<close>) leaves the finalized log as it was.
\<close>

theorem reset_paths_keep_log:
  "messages (resetCallState s) = messages s
   \<and> (resetCallState s)\<lparr>callStarted := callStarted s, vapiInstance := vapiInstance s,
        currentRole := currentRole s, liveTranscript := liveTranscript s,
        loading := loading s\<rparr> = s
   \<and> callStateOf (resetCallState s) = Idle
   \<and> messages (endCall e s) = messages s
   \<and> messages (endCall_fulfilled n s) = messages s
   \<and> messages (endCall_rejected n s) = messages s
   \<and> messages (handleCallEnd s) = messages s
   \<and> (\<exists>s'. handleError err s = Inr s' \<and> messages s' = messages s)"
  by (simp add: resetCallState_def callStateOf_def endCall_def GenerateReport_def
      endCall_fulfilled_def endCall_rejected_def handleCallEnd_def handleError_eq Let_def
      onChannel_def split: option.splits)


text \<open>
  The ids of the log in every state the page can reach are the values the generator has
  handed out, hence pairwise distinct when the generator never repeats one.
\<close>

lemma logIds_runHandler:
  assumes "logIds e s" "runHandler e h p s = Inr s'"
  shows "logIds e s'"
proof (cases "snd h")
  case Hmessage
  then have "handleMessage e p s = Inr s'" using assms(2) by (simp add: runHandler_def)
  then show ?thesis using handleMessage_cases[of e p s] assms(1) by (auto simp: logIds_def)
next
  case Herror
  then have "handleError p s = Inr s'" using assms(2) by (simp add: runHandler_def)
  then show ?thesis using assms(1) by (auto simp: handleError_eq resetCallState_def logIds_def)
qed (use assms in \<open>auto simp: runHandler_def handleCallStart_def handleCallEnd_def
      resetCallState_def handleSpeechStart_def handleSpeechEnd_def logIds_def\<close>)

lemma logIds_runListeners: "logIds e s \<Longrightarrow> logIds e (runListeners e hs p s)"
proof (induction hs arbitrary: s)
  case Nil
  then show ?case by simp
next
  case (Cons h hs)
  obtain s' where r: "runHandler e h p s = Inr s'" using runHandler_total by blast
  then have "logIds e s'" using Cons.prems logIds_runHandler by blast
  then show ?case using Cons.IH[of s'] by (simp add: r)
qed

lemma logIds_step: "logIds e s \<Longrightarrow> logIds e (step e a s)"
proof (cases a)
  case (Emit i ev p)
  assume "logIds e s"
  then show ?thesis using Emit by (simp add: emit_def logIds_runListeners)
qed (auto simp: logIds_def StartCall_def Let_def endCall_def GenerateReport_def
      endCall_fulfilled_def endCall_rejected_def resetCallState_def onChannel_def
      split: option.splits)

lemma logIds_run: "logIds e s \<Longrightarrow> logIds e (run e tr s)"
  by (induction tr arbitrary: s) (simp_all add: logIds_step)

lemma logIds_reachable: "logIds e (run e tr initialPage)"
  by (rule logIds_run) (simp add: logIds_def initialPage_def)

lemma ids_distinct_reachable:
  assumes "inj (randomUUID e)"
  shows "distinct (map msg_id (messages (run e tr initialPage)))"
proof -
  have "map msg_id (messages (run e tr initialPage))
      = map (randomUUID e) [0..<uuidCount (run e tr initialPage)]"
    using logIds_reachable[of e tr] by (simp add: logIds_def)
  moreover have "distinct (map (randomUUID e) [0..<uuidCount (run e tr initialPage)])"
    using assms by (simp add: distinct_map inj_on_def inj_def)
  ultimately show ?thesis by simp
qed

text \<open>The log only grows: whatever the page does, the entries it has stay, in place.\<close>

lemma messages_runHandler:
  assumes "runHandler e h p s = Inr s'"
  shows "\<exists>xs. messages s' = messages s @ xs"
proof (cases "snd h")
  case Hmessage
  then have "handleMessage e p s = Inr s'" using assms by (simp add: runHandler_def)
  then show ?thesis using handleMessage_cases[of e p s] by auto
next
  case Herror
  then have "handleError p s = Inr s'" using assms by (simp add: runHandler_def)
  then show ?thesis by (auto simp: handleError_eq resetCallState_def)
qed (use assms in \<open>auto simp: runHandler_def handleCallStart_def handleCallEnd_def
      resetCallState_def handleSpeechStart_def handleSpeechEnd_def\<close>)

lemma messages_runListeners: "\<exists>xs. messages (runListeners e hs p s) = messages s @ xs"
proof (induction hs arbitrary: s)
  case Nil
  then show ?case by simp
next
  case (Cons h hs)
  obtain s' where r: "runHandler e h p s = Inr s'" using runHandler_total by blast
  obtain xs where a: "messages s' = messages s @ xs" using messages_runHandler[OF r] by blast
  obtain ys where b: "messages (runListeners e hs p s') = messages s' @ ys"
    using Cons[of s'] by blast
  show ?case using a b by (simp add: r)
qed

lemma messages_step: "\<exists>xs. messages (step e a s) = messages s @ xs"
proof (cases a)
  case (Emit i ev p)
  then show ?thesis using messages_runListeners by (simp add: emit_def)
qed (auto simp: StartCall_def Let_def endCall_def GenerateReport_def
      endCall_fulfilled_def endCall_rejected_def resetCallState_def onChannel_def
      split: option.splits)

lemma log_append_only: "\<exists>xs. messages (run e tr s) = messages s @ xs"
proof (induction tr arbitrary: s)
  case Nil
  then show ?case by simp
next
  case (Cons a tr)
  obtain xs where a: "messages (step e a s) = messages s @ xs" using messages_step by blast
  obtain ys where b: "messages (run e tr (step e a s)) = messages (step e a s) @ ys"
    using Cons[of "step e a s"] by blast
  show ?case using a b by simp
qed


end
